theory Spec2Isabelle
  imports Main "HOL-Library.Sublist" "HOL-Library.Word"
begin

section \<open>Strings of the host language\<close>

text \<open>
  The action in \<^verbatim>\<open>src/app/actions.ts\<close> works on JavaScript strings. They are modelled as
  \<^typ>\<open>string\<close>, one \<^typ>\<open>char\<close> per code unit, which covers the code units below 256.
  \<^verbatim>\<open>String.prototype.startsWith\<close> is the prefix test and
  \<^verbatim>\<open>String.prototype.includes\<close> looks for the needle at every position, from the left.
\<close>

definition startsWith :: "string \<Rightarrow> string \<Rightarrow> bool" where
  "startsWith s p = prefix p s"

fun includes_str :: "string \<Rightarrow> string \<Rightarrow> bool" where
  "includes_str [] p = (p = [])"
| "includes_str (c # cs) p = (startsWith (c # cs) p \<or> includes_str cs p)"

section \<open>The two regular expressions\<close>

text \<open>
  \<^verbatim>\<open>\s\<close> of a JavaScript regular expression: the white space and line terminator code
  units. Below 256 these are TAB, LF, VT, FF, CR, SPACE and NBSP.
\<close>

definition is_space :: "char \<Rightarrow> bool" where
  "is_space c = (c \<in> set [CHR 0x09, CHR 0x0A, CHR 0x0B, CHR 0x0C, CHR 0x0D, CHR 0x20, CHR 0xA0])"

text \<open>
  A backtracking matcher in continuation style, with the priorities of the host's engine.
  Every combinator takes the matcher \<open>k\<close> of the rest of the pattern and the input at the
  current position; it returns what it consumed together with the result of \<open>k\<close>, or
  \<open>None\<close> when no way of matching is left.
  \<^item> \<open>lit p\<close>: the literal text \<open>p\<close>;
  \<^item> \<open>greedy_space\<close>: \<^verbatim>\<open>\s*\<close>, longest first, giving characters back one at a time;
  \<^item> \<open>lazy_any\<close>: \<^verbatim>\<open>[\s\S]*?\<close>, shortest first;
  \<^item> \<open>greedy_any\<close>: \<^verbatim>\<open>[\s\S]*\<close>, longest first;
  \<^item> \<open>matched\<close>: the end of the pattern;
  \<^item> \<open>search\<close>: \<^verbatim>\<open>String.prototype.match\<close> without the \<^verbatim>\<open>g\<close> flag tries the
    start positions from left to right and stops at the first that matches.
\<close>

definition matched :: "string \<Rightarrow> unit option" where
  "matched s = Some ()"

definition lit :: "string \<Rightarrow> (string \<Rightarrow> 'a option) \<Rightarrow> string \<Rightarrow> 'a option" where
  "lit p k s = (if startsWith s p then k (drop (length p) s) else None)"

fun greedy_space :: "(string \<Rightarrow> 'a option) \<Rightarrow> string \<Rightarrow> (string \<times> 'a) option" where
  "greedy_space k [] = map_option (Pair []) (k [])"
| "greedy_space k (c # cs) =
     (if is_space c then
        (case greedy_space k cs of
           Some (w, r) \<Rightarrow> Some (c # w, r)
         | None \<Rightarrow> map_option (Pair []) (k (c # cs)))
      else map_option (Pair []) (k (c # cs)))"

fun lazy_any :: "(string \<Rightarrow> 'a option) \<Rightarrow> string \<Rightarrow> (string \<times> 'a) option" where
  "lazy_any k [] = map_option (Pair []) (k [])"
| "lazy_any k (c # cs) =
     (case k (c # cs) of
        Some r \<Rightarrow> Some ([], r)
      | None \<Rightarrow> (case lazy_any k cs of
                   Some (w, r) \<Rightarrow> Some (c # w, r)
                 | None \<Rightarrow> None))"

fun greedy_any :: "(string \<Rightarrow> 'a option) \<Rightarrow> string \<Rightarrow> (string \<times> 'a) option" where
  "greedy_any k [] = map_option (Pair []) (k [])"
| "greedy_any k (c # cs) =
     (case greedy_any k cs of
        Some (w, r) \<Rightarrow> Some (c # w, r)
      | None \<Rightarrow> map_option (Pair []) (k (c # cs)))"

fun search :: "(string \<Rightarrow> 'a option) \<Rightarrow> string \<Rightarrow> 'a option" where
  "search m [] = m []"
| "search m (c # cs) = (case m (c # cs) of Some r \<Rightarrow> Some r | None \<Rightarrow> search m cs)"

text \<open>
  \<^verbatim>\<open>/```json\s*([\s\S]*?)\s*```/\<close> at one start position. The result holds the white space
  after the opening marker, capture group 1 and the white space before the closing marker.
\<close>

definition fence_at :: "string \<Rightarrow> (string \<times> string \<times> string \<times> unit) option" where
  "fence_at = lit ''```json'' (greedy_space (lazy_any (greedy_space (lit ''```'' matched))))"

text \<open>\<^verbatim>\<open>/{[\s\S]*}/\<close> at one start position; the result holds what lies between the braces.\<close>

definition braces_at :: "string \<Rightarrow> (string \<times> unit) option" where
  "braces_at = lit ''{'' (greedy_any (lit ''}'' matched))"

text \<open>
  The match array of \<^verbatim>\<open>text.match(re)\<close>: element 0 is the matched text, element 1 is
  capture group 1 where the pattern has one.
\<close>

record match_array =
  whole :: string
  group1 :: "string option"

definition match_fence :: "string \<Rightarrow> match_array option" where
  "match_fence text =
     (case search fence_at text of
        None \<Rightarrow> None
      | Some (ws1, inner, ws2, _) \<Rightarrow>
          Some \<lparr>whole = ''```json'' @ ws1 @ inner @ ws2 @ ''```'', group1 = Some inner\<rparr>)"

definition match_braces :: "string \<Rightarrow> match_array option" where
  "match_braces text =
     (case search braces_at text of
        None \<Rightarrow> None
      | Some (body, _) \<Rightarrow> Some \<lparr>whole = ''{'' @ body @ ''}'', group1 = None\<rparr>)"

text \<open>
  \<^verbatim>\<open>s.replace(/```json|```/g, "")\<close>: scanning from the left, every occurrence of the
  opening marker, and otherwise of three backticks, is dropped; the scan goes on behind it.
\<close>

fun strip_fences :: "string \<Rightarrow> string" where
  "strip_fences [] = []"
| "strip_fences (c # cs) =
     (if startsWith (c # cs) ''```json'' then strip_fences (drop 6 cs)
      else if startsWith (c # cs) ''```'' then strip_fences (drop 2 cs)
      else c # strip_fences cs)"

section \<open>JSON.parse\<close>

text \<open>
  The value of \<^verbatim>\<open>JSON.parse\<close> is modelled by the syntax tree of the JSON text (ECMA-404):
  a number keeps its lexeme, a string keeps the characters between its quotes, an object
  keeps its members in the order of the text. The conversion of a lexeme to a double, the
  decoding of escapes and the merging of repeated keys are not modelled.
  A \<^verbatim>\<open>SyntaxError\<close> is the value \<open>None\<close>.
\<close>

datatype json =
    JNull
  | JBool bool
  | JNumber string
  | JString string
  | JArray "json list"
  | JObject "(string \<times> json) list"

definition is_json_ws :: "char \<Rightarrow> bool" where
  "is_json_ws c = (c \<in> set [CHR 0x20, CHR 0x09, CHR 0x0A, CHR 0x0D])"

definition skip_ws :: "string \<Rightarrow> string" where
  "skip_ws = dropWhile is_json_ws"

definition is_digit :: "char \<Rightarrow> bool" where
  "is_digit c = (c \<in> set ''0123456789'')"

definition is_hex :: "char \<Rightarrow> bool" where
  "is_hex c = (c \<in> set ''0123456789abcdefABCDEF'')"

text \<open>
  The characters of a string behind its opening quote, up to the closing quote: no control
  character, and a backslash only in front of one of \<^verbatim>\<open>" \ / b f n r t\<close> or of
  \<^verbatim>\<open>u\<close> and four hexadecimal digits.
\<close>

fun lex_string :: "string \<Rightarrow> (string \<times> string) option" where
  "lex_string [] = None"
| "lex_string (c # cs) =
     (if c = CHR 0x22 then Some ([], cs)
      else if c = CHR 0x5C then
        (case cs of
           [] \<Rightarrow> None
         | e # cs' \<Rightarrow>
             if e \<in> set [CHR 0x22, CHR 0x5C, CHR ''/'', CHR ''b'', CHR ''f'', CHR ''n'', CHR ''r'', CHR ''t''] then
               (case lex_string cs' of
                  None \<Rightarrow> None
                | Some (s, r) \<Rightarrow> Some (c # e # s, r))
             else if e = CHR ''u'' \<and> 4 \<le> length cs' \<and> list_all is_hex (take 4 cs') then
               (case lex_string (drop 4 cs') of
                  None \<Rightarrow> None
                | Some (s, r) \<Rightarrow> Some (c # e # take 4 cs' @ s, r))
             else None)
      else if (of_char c :: nat) < 0x20 then None
      else (case lex_string cs of
              None \<Rightarrow> None
            | Some (s, r) \<Rightarrow> Some (c # s, r)))"

text \<open>
  A number: an optional minus, \<^verbatim>\<open>0\<close> or a digit sequence without leading zero, then an
  optional fraction and an optional exponent, each taken only when it is complete.
\<close>

definition lex_fraction :: "string \<Rightarrow> string \<times> string" where
  "lex_fraction r =
     (case r of
        c # d # r' \<Rightarrow>
          if c = CHR ''.'' \<and> is_digit d
          then (c # d # takeWhile is_digit r', dropWhile is_digit r')
          else ([], r)
      | _ \<Rightarrow> ([], r))"

definition lex_exponent :: "string \<Rightarrow> string \<times> string" where
  "lex_exponent r =
     (case r of
        e # r' \<Rightarrow>
          if e = CHR ''e'' \<or> e = CHR ''E'' then
            (let (sgn, r'') =
                   (case r' of
                      s # t \<Rightarrow> if s = CHR ''+'' \<or> s = CHR ''-'' then ([s], t) else ([], r')
                    | [] \<Rightarrow> ([], r'))
             in case r'' of
                  d # t \<Rightarrow>
                    if is_digit d
                    then (e # sgn @ d # takeWhile is_digit t, dropWhile is_digit t)
                    else ([], r)
                | [] \<Rightarrow> ([], r))
          else ([], r)
      | [] \<Rightarrow> ([], r))"

definition lex_number :: "string \<Rightarrow> (string \<times> string) option" where
  "lex_number cs =
     (let (sgn, r0) =
            (case cs of
               c # r \<Rightarrow> if c = CHR ''-'' then ([c], r) else ([], cs)
             | [] \<Rightarrow> ([], cs))
      in case r0 of
           [] \<Rightarrow> None
         | d # r1 \<Rightarrow>
             if \<not> is_digit d then None
             else
               (let (ip, r2) =
                      (if d = CHR ''0'' then ([d], r1)
                       else (d # takeWhile is_digit r1, dropWhile is_digit r1));
                    (fp, r3) = lex_fraction r2;
                    (ep, r4) = lex_exponent r3
                in Some (sgn @ ip @ fp @ ep, r4)))"

lemma lex_string_shorter: "lex_string cs = Some (s, r) \<Longrightarrow> length r < length cs"
proof (induction cs arbitrary: s r rule: lex_string.induct)
  case 1
  then show ?case by simp
next
  case (2 c cs)
  then show ?case
    by (fastforce split: if_splits list.splits option.splits)
qed

lemma skip_ws_le: "length (skip_ws cs) \<le> length cs"
  by (simp add: skip_ws_def length_dropWhile_le)

lemma skip_ws_Cons_less: "skip_ws cs = d # r \<Longrightarrow> length r < length cs"
  using skip_ws_le [of cs] by simp

text \<open>
  A value at the head of the input, with what is left behind it. \<open>parse_elements\<close> reads
  the elements of an array up to its closing bracket and \<open>parse_members\<close> the members of
  an object up to its closing brace; white space may stand around every token. The tests
  \<open>length r < length cs\<close> make the recursion well-founded; \<open>parse_shorter\<close> below shows
  that they never fail.
\<close>

function parse_value :: "string \<Rightarrow> (json \<times> string) option"
  and parse_elements :: "string \<Rightarrow> (json list \<times> string) option"
  and parse_members :: "string \<Rightarrow> ((string \<times> json) list \<times> string) option"
where
  "parse_value cs =
     (case cs of
        [] \<Rightarrow> None
      | c # r \<Rightarrow>
          if c = CHR ''{'' then
            (case skip_ws r of
               [] \<Rightarrow> None
             | d # r' \<Rightarrow>
                 if d = CHR ''}'' then Some (JObject [], r')
                 else (case parse_members (d # r') of
                         None \<Rightarrow> None
                       | Some (ms, r'') \<Rightarrow> Some (JObject ms, r'')))
          else if c = CHR ''['' then
            (case skip_ws r of
               [] \<Rightarrow> None
             | d # r' \<Rightarrow>
                 if d = CHR '']'' then Some (JArray [], r')
                 else (case parse_elements (d # r') of
                         None \<Rightarrow> None
                       | Some (vs, r'') \<Rightarrow> Some (JArray vs, r'')))
          else if c = CHR 0x22 then
            (case lex_string r of
               None \<Rightarrow> None
             | Some (s, r') \<Rightarrow> Some (JString s, r'))
          else if startsWith cs ''true'' then Some (JBool True, drop 4 cs)
          else if startsWith cs ''false'' then Some (JBool False, drop 5 cs)
          else if startsWith cs ''null'' then Some (JNull, drop 4 cs)
          else (case lex_number cs of
                  None \<Rightarrow> None
                | Some (n, r') \<Rightarrow> Some (JNumber n, r')))"
| "parse_elements cs =
     (case parse_value cs of
        None \<Rightarrow> None
      | Some (v, r) \<Rightarrow>
          if length r < length cs then
            (case skip_ws r of
               [] \<Rightarrow> None
             | d # r' \<Rightarrow>
                 if d = CHR '']'' then Some ([v], r')
                 else if d = CHR '','' then
                   (case parse_elements (skip_ws r') of
                      None \<Rightarrow> None
                    | Some (vs, r'') \<Rightarrow> Some (v # vs, r''))
                 else None)
          else None)"
| "parse_members cs =
     (case cs of
        [] \<Rightarrow> None
      | q # r \<Rightarrow>
          if q = CHR 0x22 then
            (case lex_string r of
               None \<Rightarrow> None
             | Some (k, r1) \<Rightarrow>
                 (case skip_ws r1 of
                    [] \<Rightarrow> None
                  | col # r2 \<Rightarrow>
                      if col = CHR '':'' then
                        (case parse_value (skip_ws r2) of
                           None \<Rightarrow> None
                         | Some (v, r3) \<Rightarrow>
                             if length r3 < length (skip_ws r2) then
                               (case skip_ws r3 of
                                  [] \<Rightarrow> None
                                | d # r4 \<Rightarrow>
                                    if d = CHR ''}'' then Some ([(k, v)], r4)
                                    else if d = CHR '','' then
                                      (case parse_members (skip_ws r4) of
                                         None \<Rightarrow> None
                                       | Some (ms, r5) \<Rightarrow> Some ((k, v) # ms, r5))
                                    else None)
                             else None)
                      else None))
          else None)"
  by pat_completeness auto

termination
  apply (relation "measure (\<lambda>x. case x of
            Inl cs \<Rightarrow> 2 * length cs
          | Inr (Inl cs) \<Rightarrow> 2 * length cs + 1
          | Inr (Inr cs) \<Rightarrow> 2 * length cs + 1)")
  apply (auto dest!: skip_ws_Cons_less lex_string_shorter)
  subgoal for cs v b r using skip_ws_le [of r] by linarith
  subgoal for r b r' using skip_ws_le [of r'] by linarith
  subgoal for r b r' v b' r'' using skip_ws_le [of r''] skip_ws_le [of r'] by linarith
  done

definition trim_json_ws :: "string \<Rightarrow> string" where
  "trim_json_ws s = rev (skip_ws (rev (skip_ws s)))"

definition JSON_parse :: "string \<Rightarrow> json option" where
  "JSON_parse s =
     (case parse_value (trim_json_ws s) of
        None \<Rightarrow> None
      | Some (v, r) \<Rightarrow> if r = [] then Some v else None)"

section \<open>The uploaded file and the request to the model\<close>

text \<open>
  \<^verbatim>\<open>Buffer.toString("base64")\<close>: three bytes give four characters of the standard
  alphabet; one or two bytes left over are padded with \<^verbatim>\<open>=\<close>.
\<close>

definition base64_alphabet :: string where
  "base64_alphabet = ''ABCDEFGHIJKLMNOPQRSTUVWXYZabcdefghijklmnopqrstuvwxyz0123456789+/''"

definition b64 :: "nat \<Rightarrow> char" where
  "b64 n = base64_alphabet ! (n mod 64)"

fun toString_base64 :: "8 word list \<Rightarrow> string" where
  "toString_base64 [] = []"
| "toString_base64 [a] =
     (let n = unat a * 65536
      in [b64 (n div 262144), b64 (n div 4096), CHR ''='', CHR ''=''])"
| "toString_base64 [a, b] =
     (let n = unat a * 65536 + unat b * 256
      in [b64 (n div 262144), b64 (n div 4096), b64 (n div 64), CHR ''=''])"
| "toString_base64 (a # b # c # r) =
     (let n = unat a * 65536 + unat b * 256 + unat c
      in [b64 (n div 262144), b64 (n div 4096), b64 (n div 64), b64 n] @ toString_base64 r)"

text \<open>
  A \<^verbatim>\<open>File\<close> as the action reads it: \<^verbatim>\<open>file.size\<close>, \<^verbatim>\<open>file.type\<close> and the bytes
  of \<^verbatim>\<open>file.arrayBuffer()\<close>. The form data is the list of its entries;
  \<^verbatim>\<open>formData.get("file")\<close> is the first entry of that name, or \<^verbatim>\<open>null\<close>. The cast
  \<^verbatim>\<open>as File\<close> of the source leaves no other kind of entry.
\<close>

record File =
  file_size :: nat
  file_type :: string
  arrayBuffer :: "8 word list"

type_synonym form_data = "(string \<times> File) list"

text \<open>The template literal \<^verbatim>\<open>prompt\<close> of the source, lines 33 to 86.\<close>

definition prompt :: string where
  \<open>prompt =
     concat (map (\<lambda>l. CHR 0x0A # l)
      [''      Analyze this car purchase contract image in detail. '',
       ''      '',
       ''      Provide a comprehensive analysis with the following sections:'',
       ''      '',
       ''      1. CONTRACT TERMS: Extract all key terms from the contract including purchase price, interest rate, loan term, down payment, monthly payment, dealer fees, documentation fees, warranties, insurance, and any add-ons. For each term, provide:'',
       ''         - The exact value'',
       ''         - Whether the term is normal, concerning (warning), or highly concerning (high)'',
       ''         - A detailed explanation of why this term is flagged (if applicable)'',
       ''         '',
       ''      2. POTENTIAL ISSUES: Identify any concerning elements in the contract such as:'',
       ''         - Above-market interest rates'',
       ''         - Overpriced warranties or add-ons'',
       ''         - Excessive fees'',
       ''         - Unfavorable clauses'',
       ''         - Below-market trade-in values'',
       ''         - missing information'',
       ''         For each issue, provide:'',
       ''         - A clear title'',
       ''         - A detailed description'',
       ''         - The severity (high, warning, or good)'',
       ''         - A specific recommendation to address the issue'',
       ''         '',
       ''      3. TRUSTWORTHINESS SCORE: Provide a numerical score from 0-100 representing the overall fairness and transparency of the contract, where:'',
       ''         - 0-59: Poor (many concerning terms)'',
       ''         - 60-79: Caution (some concerning terms)'',
       ''         - 80-100: Good (few or no concerning terms)'',
       ''         '',
       ''      4. SUMMARY: A concise paragraph summarizing the key findings and recommendations.'',
       ''      '',
       ''      Format your response as a JSON object with the following structure:'',
       ''      {'',
       ''        "contractTerms": ['',
       ''          {'',
       ''            "term": "string",'',
       ''            "value": "string",'',
       ''            "flag": "normal|warning|high|good",'',
       ''            "details": "string"'',
       ''          }'',
       ''        ],'',
       ''        "potentialIssues": ['',
       ''          {'',
       ''            "title": "string",'',
       ''            "description": "string",'',
       ''            "severity": "high|warning|good",'',
       ''            "recommendation": "string"'',
       ''          }'',
       ''        ],'',
       ''        "trustworthinessScore": number,'',
       ''        "summary": "string"'',
       ''      }'',
       ''      '',
       ''      Ensure your response is ONLY the JSON object with no additional text.''])
     @ CHR 0x0A # ''    ''\<close>

text \<open>
  The external collaborator. \<^verbatim>\<open>getGenerativeModel\<close>, \<^verbatim>\<open>generateContent\<close>,
  \<^verbatim>\<open>result.response\<close> and \<^verbatim>\<open>response.text()\<close> together are one operation: from its own
  state \<^typ>\<open>'w\<close> and the request it gives the response text or throws, and moves to a
  next state. What is thrown is an \<^verbatim>\<open>Error\<close> object with its message, or any other value.
  The type of \<^verbatim>\<open>Error\<close> declares the message a string, but nothing holds the
  collaborator to it at run time: \<open>ErrorBadMessage\<close> is an \<^verbatim>\<open>Error\<close> object whose
  \<^verbatim>\<open>message\<close> is not a string and has no \<^verbatim>\<open>includes\<close> method (a number, a boolean,
  \<^verbatim>\<open>undefined\<close>, \<^verbatim>\<open>null\<close>, a plain object), with a rendering of that value. A message
  that is not a string but has an \<^verbatim>\<open>includes\<close> method of its own (an array) is not
  modelled.
\<close>

record generate_request =
  model :: string
  prompt_text :: string
  inline_data :: string
  mimeType :: string

datatype thrown = Error string | ErrorBadMessage string | NonError string

type_synonym 'w collaborator = "'w \<Rightarrow> generate_request \<Rightarrow> (thrown + string) \<times> 'w"

section \<open>The action\<close>

text \<open>
  The object the action returns: \<^verbatim>\<open>{ success: true, data }\<close> or
  \<^verbatim>\<open>{ success: false, error }\<close>; a property that the object literal does not have is
  \<open>None\<close>.
\<close>

record outcome =
  success :: bool
  data :: "json option"
  error :: "string option"

definition Success :: "json \<Rightarrow> outcome" where
  "Success d = \<lparr>success = True, data = Some d, error = None\<rparr>"

definition Failure :: "string \<Rightarrow> outcome" where
  "Failure msg = \<lparr>success = False, data = None, error = Some msg\<rparr>"

text \<open>
  What the action does besides returning: the calls of the collaborator, the calls of
  \<^verbatim>\<open>JSON.parse\<close> with their argument, and the lines of \<^verbatim>\<open>console.error\<close> with their label.
\<close>

datatype event =
    GenerateContent generate_request
  | JSONParse string
  | ConsoleError string

text \<open>Lines 102 and 103: the string handed to \<^verbatim>\<open>JSON.parse\<close>.\<close>

definition extract_json_string :: "string \<Rightarrow> string" where
  "extract_json_string text =
     (let jsonMatch = (case match_fence text of
                         Some m \<Rightarrow> Some m
                       | None \<Rightarrow> match_braces text)
      in case jsonMatch of
           Some m \<Rightarrow> strip_fences (whole m)
         | None \<Rightarrow> text)"

text \<open>Lines 100 to 110: the inner \<^verbatim>\<open>try\<close> with its \<^verbatim>\<open>catch\<close>.\<close>

definition parse_response :: "string \<Rightarrow> (thrown + outcome) \<times> event list" where
  "parse_response text =
     (let jsonString = extract_json_string text
      in case JSON_parse jsonString of
           Some d \<Rightarrow> (Inr (Success d), [JSONParse jsonString])
         | None \<Rightarrow>
             (Inl (Error ''Failed to parse the AI response. Please try again.''),
              [JSONParse jsonString, ConsoleError ''Error parsing JSON response:'']))"

text \<open>
  Lines 26 to 31 and 89 to 94: the request built from an accepted file, for the model named
  in line 31.
\<close>

definition build_request :: "File \<Rightarrow> generate_request" where
  "build_request file =
     (let base64Data = toString_base64 (arrayBuffer file)
      in \<lparr>model = ''gemini-1.5-flash'', prompt_text = prompt,
          inline_data = base64Data, mimeType = file_type file\<rparr>)"

text \<open>
  Lines 9 to 110: the body of the outer \<^verbatim>\<open>try\<close>. \<open>Inl\<close> is a value thrown out of the
  body, \<open>Inr\<close> a value returned from it.
\<close>

definition try_block ::
  "'w collaborator \<Rightarrow> form_data \<Rightarrow> 'w \<Rightarrow> (thrown + outcome) \<times> 'w \<times> event list" where
  "try_block generateContent formData w =
     (case map_of formData ''file'' of
        None \<Rightarrow> (Inl (Error ''No file provided''), w, [])
      | Some file \<Rightarrow>
          if file_size file > 10 * 1024 * 1024 then
            (Inl (Error ''File size exceeds 10MB limit''), w, [])
          else if \<not> startsWith (file_type file) ''image/'' \<and> file_type file \<noteq> ''application/pdf'' then
            (Inl (Error ''Only image and PDF files are supported''), w, [])
          else
            (let req = build_request file;
                 (res, w') = generateContent w req
             in case res of
                  Inl e \<Rightarrow> (Inl e, w', [GenerateContent req])
                | Inr text \<Rightarrow>
                    (let (r, evs) = parse_response text
                     in (r, w', GenerateContent req # evs))))"

text \<open>
  Lines 111 to 143: the outer \<^verbatim>\<open>catch\<close>. Nothing encloses it, so what it throws leaves the
  action: \<^verbatim>\<open>error.message.includes\<close> in line 116 is a call of something that is not a
  function when the message is no string, which raises a \<^verbatim>\<open>TypeError\<close>. \<open>Inl\<close> is that
  fault, \<open>Inr\<close> the object returned.
\<close>

datatype fault = TypeError

fun catch_block :: "thrown \<Rightarrow> fault + outcome" where
  "catch_block (Error message) =
     (if includes_str message ''deprecated'' then
        Inr (Failure ''The AI model is being updated. Please try again in a few moments.'')
      else if includes_str message ''rate limit'' then
        Inr (Failure ''Too many requests. Please try again in a few minutes.'')
      else if includes_str message ''parse'' then
        Inr (Failure ''Unable to analyze the contract. Please try a clearer image or a different file.'')
      else Inr (Failure message))"
| "catch_block (ErrorBadMessage v) = Inl TypeError"
| "catch_block (NonError v) =
     Inr (Failure ''An unknown error occurred while analyzing the contract.'')"

text \<open>
  The action. Its result is how the promise settles: \<open>Inr\<close> with the object it is
  fulfilled with, \<open>Inl\<close> with the fault it is rejected with; then the collaborator's
  next state and the events in their order.
\<close>

definition analyzeContractAction ::
  "'w collaborator \<Rightarrow> form_data \<Rightarrow> 'w \<Rightarrow> (fault + outcome) \<times> 'w \<times> event list" where
  "analyzeContractAction generateContent formData w =
     (case try_block generateContent formData w of
        (Inr out, w', evs) \<Rightarrow> (Inr out, w', evs)
      | (Inl e, w', evs) \<Rightarrow>
          (catch_block e, w', evs @ [ConsoleError ''Error in analyzeContractAction:'']))"

text \<open>
  A collaborator is deterministic when its answer to a request does not depend on the
  state it is in.
\<close>

definition deterministic :: "'w collaborator \<Rightarrow> bool" where
  "deterministic generateContent =
     (\<forall>w w' req. fst (generateContent w req) = fst (generateContent w' req))"


section \<open>Notions of the specification\<close>

text \<open>A file that passes the checks of lines 16 to 23.\<close>

definition accepted :: "File \<Rightarrow> bool" where
  "accepted file =
     (file_size file \<le> 10 * 1024 * 1024 \<and>
      (startsWith (file_type file) ''image/'' \<or> file_type file = ''application/pdf''))"

text \<open>
  The span from the first opening brace of a text to its last closing brace, when a
  closing brace stands behind the first opening one.
\<close>

definition upto_last :: "char \<Rightarrow> string \<Rightarrow> string" where
  "upto_last c s = rev (dropWhile (\<lambda>x. x \<noteq> c) (rev s))"

definition brace_span :: "string \<Rightarrow> string option" where
  "brace_span text =
     (let t = dropWhile (\<lambda>x. x \<noteq> CHR ''{'') text
      in if CHR ''}'' \<in> set t then Some (upto_last CHR ''}'' t) else None)"

text \<open>
  The interface \<^verbatim>\<open>AnalysisResults\<close> of \<^verbatim>\<open>src/components/contract-analyzer.tsx\<close>, lines 430
  to 445, read on a syntax tree; of a repeated key the last member counts.
\<close>

definition property :: "(string \<times> json) list \<Rightarrow> string \<Rightarrow> json option" where
  "property ms k = map_of (rev ms) k"

fun is_string :: "json option \<Rightarrow> bool" where
  "is_string (Some (JString s)) = True"
| "is_string j = False"

fun is_optional_string :: "json option \<Rightarrow> bool" where
  "is_optional_string None = True"
| "is_optional_string j = is_string j"

fun is_one_of :: "string list \<Rightarrow> json option \<Rightarrow> bool" where
  "is_one_of vs (Some (JString s)) = (s \<in> set vs)"
| "is_one_of vs j = False"

fun is_contract_term :: "json \<Rightarrow> bool" where
  "is_contract_term (JObject ms) =
     (is_string (property ms ''term'') \<and> is_string (property ms ''value'') \<and>
      is_one_of [''normal'', ''warning'', ''high'', ''good''] (property ms ''flag'') \<and>
      is_optional_string (property ms ''details''))"
| "is_contract_term j = False"

fun is_potential_issue :: "json \<Rightarrow> bool" where
  "is_potential_issue (JObject ms) =
     (is_string (property ms ''title'') \<and> is_string (property ms ''description'') \<and>
      is_one_of [''high'', ''warning'', ''good''] (property ms ''severity'') \<and>
      is_optional_string (property ms ''recommendation''))"
| "is_potential_issue j = False"

fun is_array_of :: "(json \<Rightarrow> bool) \<Rightarrow> json option \<Rightarrow> bool" where
  "is_array_of p (Some (JArray vs)) = list_all p vs"
| "is_array_of p j = False"

fun is_number :: "json option \<Rightarrow> bool" where
  "is_number (Some (JNumber n)) = True"
| "is_number j = False"

fun is_AnalysisResults :: "json \<Rightarrow> bool" where
  "is_AnalysisResults (JObject ms) =
     (is_array_of is_contract_term (property ms ''contractTerms'') \<and>
      is_array_of is_potential_issue (property ms ''potentialIssues'') \<and>
      is_number (property ms ''trustworthinessScore'') \<and>
      is_string (property ms ''summary''))"
| "is_AnalysisResults j = False"

section \<open>Sample inputs\<close>

definition sample_pdf :: File where
  "sample_pdf =
     \<lparr>file_size = 4, file_type = ''application/pdf'', arrayBuffer = [0x25, 0x50, 0x44, 0x46]\<rparr>"

definition sample_analysis :: string where
  \<open>sample_analysis =
     ''{"contractTerms":[{"term":"APR","value":"19%","flag":"high"}],"potentialIssues":[],"trustworthinessScore":55,"summary":"ok"}''\<close>

definition sample_analysis_json :: json where
  "sample_analysis_json =
     JObject
       [(''contractTerms'',
         JArray [JObject [(''term'', JString ''APR''), (''value'', JString ''19%''),
                          (''flag'', JString ''high'')]]),
        (''potentialIssues'', JArray []),
        (''trustworthinessScore'', JNumber ''55''),
        (''summary'', JString ''ok'')]"

definition oversized_text :: File where
  "oversized_text = \<lparr>file_size = 10485761, file_type = ''text/plain'', arrayBuffer = []\<rparr>"

definition exact_limit_image :: File where
  "exact_limit_image = \<lparr>file_size = 10485760, file_type = ''image/png'', arrayBuffer = []\<rparr>"

definition small_text :: File where
  "small_text = \<lparr>file_size = 12, file_type = ''text/plain'', arrayBuffer = []\<rparr>"

text \<open>
  Responses: an analysis in a fence between line feeds with braces in the prose before it,
  an analysis in a fence between no-break spaces, an analysis wrapped in prose, and an
  object with three backticks in a string.
\<close>

definition fenced_response :: string where
  "fenced_response =
     ''Here is the analysis {draft 2}:'' @ CHR 0x0A # ''```json'' @ CHR 0x0A # sample_analysis @
     CHR 0x0A # ''```'' @ CHR 0x0A # ''Let me know if you need more.''"

definition nbsp_fenced_response :: string where
  "nbsp_fenced_response = ''```json'' @ CHR 0xA0 # sample_analysis @ CHR 0xA0 # ''```''"

definition prose_response :: string where
  "prose_response = ''Sure! '' @ sample_analysis @ '' Hope this helps.''"

definition backticks_response :: string where
  \<open>backticks_response = ''Result: {"summary":"```"} Done.''\<close>

text \<open>Two collaborators over a call counter: one always throws, one always answers.\<close>

definition always_throws :: "thrown \<Rightarrow> nat collaborator" where
  "always_throws e w req = (Inl e, Suc w)"

definition always_answers :: "string \<Rightarrow> nat collaborator" where
  "always_answers text w req = (Inr text, Suc w)"

section \<open>Facts about the action\<close>

declare parse_value.simps [simp del] parse_elements.simps [simp del] parse_members.simps [simp del]

text \<open>
  Every successful parse consumes input, so the tests that make \<open>parse_value\<close>
  well-founded are always passed.
\<close>

lemma lex_fraction_le: "length (snd (lex_fraction r)) \<le> length r"
  using length_dropWhile_le [of is_digit]
  by (auto simp: lex_fraction_def le_SucI split: list.splits)

lemma lex_exponent_le: "length (snd (lex_exponent r)) \<le> length r"
  using length_dropWhile_le [of is_digit]
  by (auto simp: lex_exponent_def le_SucI split: list.splits)

lemma lex_tail_le:
  assumes "lex_fraction t = (fp, r3)" and "lex_exponent r3 = (ep, r4)"
  shows "length r4 \<le> length t"
  using lex_fraction_le [of t] lex_exponent_le [of r3] assms by simp

lemma lex_tail_digits_le:
  assumes "lex_fraction (dropWhile is_digit t) = (fp, r3)" and "lex_exponent r3 = (ep, r4)"
  shows "length r4 \<le> length t"
  using lex_tail_le [OF assms] length_dropWhile_le [of is_digit t] by simp

lemma lex_number_shorter: "lex_number cs = Some (n, r) \<Longrightarrow> length r < length cs"
  by (auto simp: lex_number_def Let_def le_imp_less_Suc less_SucI
           split: list.splits if_splits prod.splits
           dest: lex_tail_le lex_tail_digits_le)

lemma parse_shorter:
  "(\<forall>v r. parse_value cs = Some (v, r) \<longrightarrow> length r < length cs)"
  "(\<forall>vs r. parse_elements cs1 = Some (vs, r) \<longrightarrow> length r < length cs1)"
  "(\<forall>ms r. parse_members cs2 = Some (ms, r) \<longrightarrow> length r < length cs2)"
proof (induction cs and cs1 and cs2 rule: parse_value_parse_elements_parse_members.induct)
  case (1 cs)
  show ?case
  proof (intro allI impI)
    fix v r
    assume "parse_value cs = Some (v, r)"
    note a = this [unfolded parse_value.simps [of cs]]
    show "length r < length cs"
    proof (cases cs)
      case Nil
      with a show ?thesis by simp
    next
      case (Cons c t)
      consider (obj) "c = CHR ''{''" | (arr) "c \<noteq> CHR ''{''" "c = CHR ''[''"
        | (str) "c \<noteq> CHR ''{''" "c \<noteq> CHR ''[''" "c = CHR 0x22"
        | (other) "c \<noteq> CHR ''{''" "c \<noteq> CHR ''[''" "c \<noteq> CHR 0x22"
        by blast
      then show ?thesis
      proof cases
        case obj
        show ?thesis
        proof (cases "skip_ws t")
          case Nil
          with a Cons obj show ?thesis by simp
        next
          case inner: (Cons d t')
          show ?thesis
          proof (cases "d = CHR ''}''")
            case True
            with a Cons obj inner have "r = t'" by simp
            with skip_ws_Cons_less [OF inner] Cons show ?thesis by simp
          next
            case False
            with a Cons obj inner obtain ms where "parse_members (d # t') = Some (ms, r)"
              by (auto split: option.splits)
            with "1.IH"(1) [OF Cons obj inner False] have "length r < length (d # t')" by blast
            with skip_ws_le [of t] inner Cons show ?thesis by simp
          qed
        qed
      next
        case arr
        show ?thesis
        proof (cases "skip_ws t")
          case Nil
          with a Cons arr show ?thesis by simp
        next
          case inner: (Cons d t')
          show ?thesis
          proof (cases "d = CHR '']''")
            case True
            with a Cons arr inner have "r = t'" by simp
            with skip_ws_Cons_less [OF inner] Cons show ?thesis by simp
          next
            case False
            with a Cons arr inner obtain vs where "parse_elements (d # t') = Some (vs, r)"
              by (auto split: option.splits)
            with "1.IH"(2) [OF Cons arr inner False] have "length r < length (d # t')" by blast
            with skip_ws_le [of t] inner Cons show ?thesis by simp
          qed
        qed
      next
        case str
        with a Cons obtain s where "lex_string t = Some (s, r)"
          by (auto split: option.splits)
        from lex_string_shorter [OF this] Cons show ?thesis by simp
      next
        case other
        with a Cons show ?thesis
          by (auto simp: startsWith_def prefix_def
                   split: option.splits if_splits dest: lex_number_shorter)
      qed
    qed
  qed
next
  case (2 cs)
  show ?case
  proof (intro allI impI)
    fix vs r
    assume "parse_elements cs = Some (vs, r)"
    note a = this [unfolded parse_elements.simps [of cs]]
    then obtain v y where v: "parse_value cs = Some (v, y)" and y: "length y < length cs"
      by (auto split: option.splits if_splits)
    show "length r < length cs"
    proof (cases "skip_ws y")
      case Nil
      with a v y show ?thesis by simp
    next
      case (Cons d t)
      show ?thesis
      proof (cases "d = CHR '']''")
        case True
        with a v y Cons have "r = t" by simp
        with skip_ws_Cons_less [OF Cons] y show ?thesis by simp
      next
        case False
        with a v y Cons have d: "d = CHR '',''"
          by (auto split: if_splits)
        with a v y Cons False obtain ws where "parse_elements (skip_ws t) = Some (ws, r)"
          by (auto split: option.splits)
        with "2.IH"(2) [OF v refl y Cons False d] have "length r < length (skip_ws t)" by blast
        with skip_ws_le [of t] skip_ws_Cons_less [OF Cons] y show ?thesis by simp
      qed
    qed
  qed
next
  case (3 cs)
  show ?case
  proof (intro allI impI)
    fix ms r
    assume "parse_members cs = Some (ms, r)"
    note a = this [unfolded parse_members.simps [of cs]]
    then obtain t k r1 r2 v r3 d r4
      where cs: "cs = CHR 0x22 # t" and k: "lex_string t = Some (k, r1)"
        and col: "skip_ws r1 = CHR '':'' # r2"
        and v: "parse_value (skip_ws r2) = Some (v, r3)"
        and g: "length r3 < length (skip_ws r2)"
        and d: "skip_ws r3 = d # r4"
      by (auto split: list.splits option.splits if_splits)
    have base: "length r4 < length cs"
      using skip_ws_Cons_less [OF d] g skip_ws_le [of r2] skip_ws_Cons_less [OF col]
        lex_string_shorter [OF k] cs by simp
    show "length r < length cs"
    proof (cases "d = CHR ''}''")
      case True
      with a cs k col v g d have "r = r4" by simp
      with base show ?thesis by simp
    next
      case False
      with a cs k col v g d have c: "d = CHR '',''"
        by (auto split: if_splits)
      with a cs k col v g d False obtain ms' where "parse_members (skip_ws r4) = Some (ms', r)"
        by (auto split: option.splits)
      with "3.IH"(2) [OF cs refl k refl col refl v refl g d False c]
      have "length r < length (skip_ws r4)" by blast
      with skip_ws_le [of r4] base show ?thesis by simp
    qed
  qed
qed

text \<open>White space around a JSON text does not matter.\<close>

lemma skip_ws_prepend: "list_all is_json_ws ws \<Longrightarrow> skip_ws (ws @ s) = skip_ws s"
  by (simp add: skip_ws_def list_all_iff)

lemma trim_json_ws_surrounded:
  assumes "list_all is_json_ws ws1" and "list_all is_json_ws ws2"
  shows "trim_json_ws (ws1 @ s @ ws2) = trim_json_ws s"
proof -
  have a: "skip_ws (ws1 @ s @ ws2) = skip_ws (s @ ws2)"
    using assms(1) by (rule skip_ws_prepend)
  have b: "list_all is_json_ws (rev ws2)" using assms(2) by (simp add: list_all_iff)
  show ?thesis
  proof (cases "list_all is_json_ws s")
    case True
    with assms(2) have "skip_ws (s @ ws2) = []" and "skip_ws s = []"
      by (auto simp: skip_ws_def list_all_iff)
    with a show ?thesis by (simp add: trim_json_ws_def)
  next
    case False
    then have "skip_ws (s @ ws2) = skip_ws s @ ws2"
      by (auto simp: skip_ws_def list_all_iff dropWhile_append)
    with a skip_ws_prepend [OF b] show ?thesis by (simp add: trim_json_ws_def)
  qed
qed

lemma JSON_parse_surrounded:
  assumes "list_all is_json_ws ws1" and "list_all is_json_ws ws2"
  shows "JSON_parse (ws1 @ s @ ws2) = JSON_parse s"
  by (simp add: JSON_parse_def trim_json_ws_surrounded [OF assms])

text \<open>\<open>includes_str\<close> is the contiguous-sublist relation of the library.\<close>

lemma includes_str_sublist: "includes_str s p = sublist p s"
  by (induction s) (auto simp: startsWith_def sublist_Cons_right)

text \<open>
  The brace pattern matches the span from the first opening brace to the last closing one.
\<close>

lemma upto_last_notin: "c \<notin> set s \<Longrightarrow> upto_last c s = []"
  by (auto simp: upto_last_def)

lemma upto_last_Cons: "c \<in> set s \<Longrightarrow> upto_last c (x # s) = x # upto_last c s"
  by (auto simp: upto_last_def dropWhile_append)

lemma upto_last_Cons_notin: "c \<notin> set s \<Longrightarrow> upto_last c (c # s) = [c]"
  by (auto simp: upto_last_def dropWhile_append)

lemma upto_last_snoc: "c \<in> set s \<Longrightarrow> butlast (upto_last c s) @ [c] = upto_last c s"
proof (induction s)
  case Nil
  then show ?case by simp
next
  case (Cons x s)
  show ?case
  proof (cases "c \<in> set s")
    case True
    with Cons.IH have "butlast (upto_last c s) @ [c] = upto_last c s" by simp
    moreover from this have "upto_last c s \<noteq> []" by auto
    ultimately show ?thesis using True by (simp add: upto_last_Cons)
  next
    case False
    with Cons.prems have "x = c" by simp
    with False show ?thesis by (simp add: upto_last_Cons_notin)
  qed
qed

lemma greedy_any_close:
  "greedy_any (lit ''}'' matched) cs =
     (if CHR ''}'' \<in> set cs then Some (butlast (upto_last CHR ''}'' cs), ()) else None)"
proof (induction cs)
  case Nil
  then show ?case by (simp add: lit_def startsWith_def)
next
  case (Cons c cs)
  show ?case
  proof (cases "CHR ''}'' \<in> set cs")
    case True
    then have "upto_last CHR ''}'' cs \<noteq> []" using upto_last_snoc by force
    with True Cons.IH show ?thesis by (simp add: upto_last_Cons)
  next
    case False
    with Cons.IH show ?thesis
      by (auto simp: lit_def startsWith_def matched_def upto_last_Cons_notin)
  qed
qed

lemma search_braces_none: "CHR ''}'' \<notin> set cs \<Longrightarrow> search braces_at cs = None"
  by (induction cs) (auto simp: braces_at_def lit_def startsWith_def greedy_any_close)

lemma match_braces_span:
  "match_braces response =
     map_option (\<lambda>s. \<lparr>whole = s, group1 = None\<rparr>) (brace_span response)"
proof (induction response)
  case Nil
  then show ?case
    by (simp add: match_braces_def brace_span_def braces_at_def lit_def startsWith_def)
next
  case (Cons c cs)
  show ?case
  proof (cases "c = CHR ''{''")
    case False
    then have "braces_at (c # cs) = None" by (simp add: braces_at_def lit_def startsWith_def)
    with False Cons.IH show ?thesis by (simp add: match_braces_def brace_span_def)
  next
    case brace: True
    show ?thesis
    proof (cases "CHR ''}'' \<in> set cs")
      case True
      then have "braces_at (c # cs) = Some (butlast (upto_last CHR ''}'' cs), ())"
        using brace by (simp add: braces_at_def lit_def startsWith_def greedy_any_close)
      with True brace show ?thesis
        using upto_last_snoc [OF True]
        by (simp add: match_braces_def brace_span_def upto_last_Cons)
    next
      case False
      then have "braces_at (c # cs) = None"
        using brace by (simp add: braces_at_def lit_def startsWith_def greedy_any_close)
      with False brace show ?thesis
        by (simp add: match_braces_def brace_span_def search_braces_none)
    qed
  qed
qed

text \<open>A text without three backticks in a row is left as it is.\<close>

lemma startsWith_fence_json: "startsWith s ''```json'' \<Longrightarrow> startsWith s ''```''"
  by (auto simp: startsWith_def prefix_def)

lemma strip_fences_id: "\<not> includes_str s ''```'' \<Longrightarrow> strip_fences s = s"
proof (induction s)
  case Nil
  then show ?case by simp
next
  case (Cons c s)
  from Cons.prems have a: "\<not> startsWith (c # s) ''```''" and b: "\<not> includes_str s ''```''"
    by simp_all
  from a have "\<not> startsWith (c # s) ''```json''" using startsWith_fence_json by blast
  with a Cons.IH [OF b] show ?case by simp
qed

text \<open>
  The fence pattern: between the opening marker and the closing one that ends the match
  there is no further marker, so removing the markers from the match leaves exactly what
  stood between them.
\<close>

lemma not_space_backtick: "startsWith (c # cs) ''```'' \<Longrightarrow> \<not> is_space c"
  by (auto simp: startsWith_def is_space_def)

lemma strip_fences_spaces:
  "list_all is_space ws \<Longrightarrow> strip_fences (ws @ s) = ws @ strip_fences s"
proof (induction ws)
  case Nil
  then show ?case by simp
next
  case (Cons c ws)
  then have "is_space c" by simp
  then have a: "\<not> startsWith (c # ws @ s) ''```''" using not_space_backtick by blast
  then have "\<not> startsWith (c # ws @ s) ''```json''" using startsWith_fence_json by blast
  with a Cons show ?case by simp
qed

lemma close_fence:
  "greedy_space (lit ''```'' matched) s =
     (if startsWith (dropWhile is_space s) ''```'' then Some (takeWhile is_space s, ()) else None)"
proof (induction s)
  case Nil
  then show ?case by (simp add: lit_def startsWith_def)
next
  case (Cons c s)
  show ?case
  proof (cases "is_space c")
    case True
    then have "\<not> startsWith (c # s) ''```''" using not_space_backtick by blast
    with True Cons.IH show ?thesis by (simp add: lit_def)
  next
    case False
    then show ?thesis by (simp add: lit_def matched_def)
  qed
qed

lemma lazy_any_shape:
  "lazy_any (greedy_space (lit ''```'' matched)) s = Some (cap, ws2, u) \<Longrightarrow>
     \<exists>rest. s = cap @ ws2 @ ''```'' @ rest \<and> list_all is_space ws2"
proof (induction s arbitrary: cap)
  case Nil
  then show ?case by (simp add: close_fence startsWith_def)
next
  case (Cons c s)
  show ?case
  proof (cases "greedy_space (lit ''```'' matched) (c # s)")
    case None
    with Cons.prems obtain w where w: "lazy_any (greedy_space (lit ''```'' matched)) s = Some (w, ws2, u)"
      and cap: "cap = c # w"
      by (auto split: option.splits)
    from Cons.IH [OF w] cap show ?thesis by auto
  next
    case (Some r)
    with Cons.prems have cap: "cap = []" and r: "r = (ws2, u)" by simp_all
    from Some r close_fence [of "c # s"]
    have p: "startsWith (dropWhile is_space (c # s)) ''```''"
      and ws: "ws2 = takeWhile is_space (c # s)"
      by (auto simp del: greedy_space.simps split: if_splits)
    from p obtain rest where "dropWhile is_space (c # s) = ''```'' @ rest"
      by (auto simp: startsWith_def prefix_def)
    then have "c # s = ws2 @ ''```'' @ rest"
      using ws takeWhile_dropWhile_id [of is_space "c # s"] by simp
    moreover have "list_all is_space ws2"
      unfolding ws list_all_iff using set_takeWhileD by fastforce
    ultimately show ?thesis using cap by auto
  qed
qed

lemma strip_fences_capture:
  "lazy_any (greedy_space (lit ''```'' matched)) s = Some (cap, ws2, u) \<Longrightarrow>
     strip_fences (cap @ ws2 @ ''```'') = cap @ ws2"
proof (induction s arbitrary: cap)
  case Nil
  then show ?case by (simp add: close_fence startsWith_def)
next
  case (Cons c s)
  from lazy_any_shape [OF Cons.prems] obtain rest
    where shape: "c # s = cap @ ws2 @ ''```'' @ rest" and ws: "list_all is_space ws2"
    by blast
  show ?case
  proof (cases "greedy_space (lit ''```'' matched) (c # s)")
    case None
    with Cons.prems obtain w where w: "lazy_any (greedy_space (lit ''```'' matched)) s = Some (w, ws2, u)"
      and cap: "cap = c # w"
      by (auto split: option.splits)
    have a: "\<not> startsWith (c # w @ ws2 @ ''```'') ''```''"
    proof
      assume h: "startsWith (c # w @ ws2 @ ''```'') ''```''"
      then have "\<not> is_space c" by (rule not_space_backtick)
      moreover have "c # s = (c # w @ ws2 @ ''```'') @ rest"
        using shape cap by simp
      with h have "startsWith (c # s) ''```''"
        unfolding startsWith_def by (simp only: prefix_prefix)
      ultimately have "greedy_space (lit ''```'' matched) (c # s) \<noteq> None"
        using close_fence [of "c # s"] by (simp del: greedy_space.simps)
      with None show False by simp
    qed
    then have "\<not> startsWith (c # w @ ws2 @ ''```'') ''```json''"
      using startsWith_fence_json by blast
    with a Cons.IH [OF w] cap show ?thesis by simp
  next
    case (Some r)
    with Cons.prems have cap: "cap = []" by simp
    have "strip_fences ''```'' = []" by (simp add: startsWith_def)
    with cap ws strip_fences_spaces [of ws2 "''```''"] show ?thesis by simp
  qed
qed

lemma greedy_space_shape:
  "greedy_space k s = Some (w, r) \<Longrightarrow> list_all is_space w \<and> k (drop (length w) s) = Some r"
proof (induction s arbitrary: w)
  case Nil
  then show ?case by auto
next
  case (Cons c s)
  show ?case
  proof (cases "is_space c \<and> greedy_space k s \<noteq> None")
    case True
    then obtain w' r' where g: "greedy_space k s = Some (w', r')" by auto
    with True Cons.prems have "w = c # w'" and "r' = r" by simp_all
    with Cons.IH [of w'] g True show ?thesis by simp
  next
    case False
    with Cons.prems have "w = []" and "k (c # s) = Some r"
      by (auto split: if_splits option.splits)
    then show ?thesis by simp
  qed
qed

lemma search_found: "search m s = Some r \<Longrightarrow> \<exists>t. m t = Some r"
  by (induction s) (auto split: option.splits)

lemma strip_fences_match:
  assumes "search fence_at response = Some (ws1, inner, ws2, u)"
  shows "strip_fences (''```json'' @ ws1 @ inner @ ws2 @ ''```'') = ws1 @ inner @ ws2"
proof -
  from search_found [OF assms] obtain t where t: "fence_at t = Some (ws1, inner, ws2, u)"
    by blast
  then have "greedy_space (lazy_any (greedy_space (lit ''```'' matched)))
        (drop (length ''```json'') t) = Some (ws1, inner, ws2, u)"
    unfolding fence_at_def lit_def by (simp split: if_splits)
  from greedy_space_shape [OF this]
  have ws1: "list_all is_space ws1"
    and "lazy_any (greedy_space (lit ''```'' matched))
           (drop (length ws1) (drop (length ''```json'') t)) = Some (inner, ws2, u)"
    by (rule conjunct1, rule conjunct2)
  from strip_fences_capture [OF this(2)]
  have "strip_fences (inner @ ws2 @ ''```'') = inner @ ws2" .
  with strip_fences_spaces [OF ws1, of "inner @ ws2 @ ''```''"]
  have "strip_fences (ws1 @ inner @ ws2 @ ''```'') = ws1 @ inner @ ws2" by simp
  moreover have "strip_fences (''```json'' @ ws1 @ inner @ ws2 @ ''```'') =
      strip_fences (ws1 @ inner @ ws2 @ ''```'')"
    by (simp add: startsWith_def)
  ultimately show ?thesis by simp
qed

lemma extract_fenced:
  assumes "search fence_at response = Some (ws1, inner, ws2, u)"
  shows "extract_json_string response = ws1 @ inner @ ws2"
  using assms strip_fences_match [OF assms]
  by (simp add: extract_json_string_def match_fence_def)

text \<open>The error of the inner \<^verbatim>\<open>catch\<close> names ``parse'', so the outer one rewords it.\<close>

lemma catch_block_parse_error:
  "catch_block (Error ''Failed to parse the AI response. Please try again.'') =
     Inr (Failure ''Unable to analyze the contract. Please try a clearer image or a different file.'')"
  by (simp add: startsWith_def)




lemma analyze_too_large:
  assumes "map_of formData ''file'' = Some f" and "10 * 1024 * 1024 < file_size f"
  shows "analyzeContractAction gen formData w =
           (Inr (Failure ''File size exceeds 10MB limit''), w,
            [ConsoleError ''Error in analyzeContractAction:''])"
  using assms by (simp add: analyzeContractAction_def try_block_def startsWith_def)

lemma analyze_wrong_type:
  assumes "map_of formData ''file'' = Some f" and "file_size f \<le> 10 * 1024 * 1024"
    and "\<not> startsWith (file_type f) ''image/''" and "file_type f \<noteq> ''application/pdf''"
  shows "analyzeContractAction gen formData w =
           (Inr (Failure ''Only image and PDF files are supported''), w,
            [ConsoleError ''Error in analyzeContractAction:''])"
proof -
  have "try_block gen formData w = (Inl (Error ''Only image and PDF files are supported''), w, [])"
    using assms by (simp add: try_block_def)
  then show ?thesis
    by (simp add: analyzeContractAction_def startsWith_def)
qed

lemma analyze_thrown:
  assumes "map_of formData ''file'' = Some f" and "accepted f"
    and "gen w (build_request f) = (Inl e, w')"
  shows "analyzeContractAction gen formData w =
           (catch_block e, w',
            [GenerateContent (build_request f), ConsoleError ''Error in analyzeContractAction:''])"
proof -
  have "try_block gen formData w = (Inl e, w', [GenerateContent (build_request f)])"
    using assms by (auto simp: try_block_def accepted_def)
  then show ?thesis
    by (simp add: analyzeContractAction_def del: catch_block.simps)
qed

lemma analyze_text:
  assumes "map_of formData ''file'' = Some f" and "accepted f"
    and "gen w (build_request f) = (Inr text, w')"
  shows "analyzeContractAction gen formData w =
           (case JSON_parse (extract_json_string text) of
              Some d \<Rightarrow>
                (Inr (Success d), w',
                 [GenerateContent (build_request f), JSONParse (extract_json_string text)])
            | None \<Rightarrow>
                (Inr (Failure ''Unable to analyze the contract. Please try a clearer image or a different file.''),
                 w',
                 [GenerateContent (build_request f), JSONParse (extract_json_string text),
                  ConsoleError ''Error parsing JSON response:'',
                  ConsoleError ''Error in analyzeContractAction:'']))"
proof -
  have "try_block gen formData w =
          (case parse_response text of (r, evs) \<Rightarrow> (r, w', GenerateContent (build_request f) # evs))"
    using assms by (auto simp: try_block_def accepted_def)
  then show ?thesis
    by (simp add: analyzeContractAction_def parse_response_def catch_block_parse_error
             del: catch_block.simps split: option.splits)
qed

lemma analyze_invokes:
  assumes "map_of formData ''file'' = Some f" and "accepted f"
  shows "\<exists>evs. snd (snd (analyzeContractAction gen formData w)) =
           GenerateContent (build_request f) # evs"
proof -
  obtain res w' where g: "gen w (build_request f) = (res, w')"
    by (cases "gen w (build_request f)")
  show ?thesis
  proof (cases res)
    case (Inl e)
    with g have "gen w (build_request f) = (Inl e, w')" by simp
    from analyze_thrown [where gen = gen and w = w, OF assms this] show ?thesis by simp
  next
    case (Inr t)
    with g have "gen w (build_request f) = (Inr t, w')" by simp
    from analyze_text [where gen = gen and w = w, OF assms this] show ?thesis
      by (cases "JSON_parse (extract_json_string t)") simp_all
  qed
qed

lemma accepted_sample_pdf: "accepted sample_pdf"
  by (simp add: accepted_def sample_pdf_def)

lemma parse_sample_analysis: "JSON_parse sample_analysis = Some sample_analysis_json"
  by (simp add: sample_analysis_def sample_analysis_json_def JSON_parse_def trim_json_ws_def
        skip_ws_def is_json_ws_def startsWith_def lex_number_def lex_fraction_def
        lex_exponent_def is_digit_def parse_value.simps parse_members.simps parse_elements.simps)

lemma sample_analysis_shape: "is_AnalysisResults sample_analysis_json"
  by (simp add: sample_analysis_json_def property_def)

section \<open>Claims\<close>

subsection \<open>C1: an error that names the rate limit\<close>

text \<open>
  C1, as stated: for every error of the collaborator whose message contains ``rate limit'',
  the action returns the throttling failure, whatever else the message contains. This fails:
  the outer \<^verbatim>\<open>catch\<close> looks for ``deprecated'' first, so a message with both words gets the
  model-transition failure.
\<close>

theorem rate_limit_overridden_by_deprecated:
  "includes_str ''model deprecated; rate limit not reached'' ''rate limit'' \<and>
   fst (analyzeContractAction
          (always_throws (Error ''model deprecated; rate limit not reached''))
          [(''file'', sample_pdf)] (0::nat)) =
     Inr (Failure ''The AI model is being updated. Please try again in a few moments.'') \<and>
   fst (analyzeContractAction
          (always_throws (Error ''model deprecated; rate limit not reached''))
          [(''file'', sample_pdf)] (0::nat)) \<noteq>
     Inr (Failure ''Too many requests. Please try again in a few minutes.'')"
proof -
  let ?m = "''model deprecated; rate limit not reached''"
  let ?g = "always_throws (Error ?m)"
  have fd: "map_of [(''file'', sample_pdf)] ''file'' = Some sample_pdf" by simp
  have g: "?g 0 (build_request sample_pdf) = (Inl (Error ?m), 1)" by (simp add: always_throws_def)
  have r: "includes_str ?m ''rate limit''" by (simp add: startsWith_def)
  have c: "catch_block (Error ?m) =
             Inr (Failure ''The AI model is being updated. Please try again in a few moments.'')"
    by (simp add: startsWith_def)
  have a: "fst (analyzeContractAction ?g [(''file'', sample_pdf)] 0) =
             Inr (Failure ''The AI model is being updated. Please try again in a few moments.'')"
    by (simp only: analyze_thrown [where gen = ?g and w = 0, OF fd accepted_sample_pdf g] c fst_conv)
  have n: "Failure ''The AI model is being updated. Please try again in a few moments.'' \<noteq>
           Failure ''Too many requests. Please try again in a few minutes.''"
    by (simp add: Failure_def)
  have b: "fst (analyzeContractAction ?g [(''file'', sample_pdf)] 0) \<noteq>
             Inr (Failure ''Too many requests. Please try again in a few minutes.'')"
    unfolding a using n by (simp only: sum.inject not_False_eq_True)
  from r a b show ?thesis by (intro conjI)
qed

text \<open>
  C1, amended: for every error of the collaborator whose message contains ``rate limit'' and
  does not contain ``deprecated'', the action returns the failure
  ``Too many requests. Please try again in a few minutes.'', whatever else the message
  contains.
\<close>

theorem rate_limit_throttling:
  assumes "map_of formData ''file'' = Some f" and "accepted f"
    and "generateContent w (build_request f) = (Inl (Error message), w')"
    and "includes_str message ''rate limit''" and "\<not> includes_str message ''deprecated''"
  shows "analyzeContractAction generateContent formData w =
           (Inr (Failure ''Too many requests. Please try again in a few minutes.''), w',
            [GenerateContent (build_request f), ConsoleError ''Error in analyzeContractAction:''])"
  using assms by (simp add: analyze_thrown)

text \<open>C1, witness: a message that names the rate limit and also contains ``parse''.\<close>

theorem rate_limit_throttling_witness:
  "includes_str ''rate limit reached, could not parse the quota'' ''rate limit'' \<and>
   includes_str ''rate limit reached, could not parse the quota'' ''parse'' \<and>
   \<not> includes_str ''rate limit reached, could not parse the quota'' ''deprecated'' \<and>
   accepted sample_pdf \<and>
   analyzeContractAction
     (always_throws (Error ''rate limit reached, could not parse the quota''))
     [(''file'', sample_pdf)] (0::nat) =
     (Inr (Failure ''Too many requests. Please try again in a few minutes.''), 1,
      [GenerateContent (build_request sample_pdf), ConsoleError ''Error in analyzeContractAction:''])"
proof -
  let ?m = "''rate limit reached, could not parse the quota''"
  let ?g = "always_throws (Error ?m)"
  have fd: "map_of [(''file'', sample_pdf)] ''file'' = Some sample_pdf" by simp
  have g: "?g 0 (build_request sample_pdf) = (Inl (Error ?m), 1)" by (simp add: always_throws_def)
  have r: "includes_str ?m ''rate limit''" by (simp add: startsWith_def)
  have p: "includes_str ?m ''parse''" by (simp add: startsWith_def)
  have d: "\<not> includes_str ?m ''deprecated''" by (simp add: startsWith_def)
  from r p d accepted_sample_pdf
    rate_limit_throttling [where generateContent = ?g and w = 0, OF fd accepted_sample_pdf g r d]
  show ?thesis by (intro conjI)
qed

subsection \<open>C2: an unsupported media type\<close>

text \<open>
  C2, as stated: for every uploaded file whose type neither starts with \<^verbatim>\<open>image/\<close> nor is
  \<^verbatim>\<open>application/pdf\<close>, with no further condition on the file, the action returns the
  failure ``Only image and PDF files are supported''. This fails for a file above the size
  limit: the size is checked first.
\<close>

theorem unsupported_type_oversized:
  "\<not> startsWith (file_type oversized_text) ''image/'' \<and>
   file_type oversized_text \<noteq> ''application/pdf'' \<and>
   analyzeContractAction (always_answers ''{}'') [(''file'', oversized_text)] (0::nat) =
     (Inr (Failure ''File size exceeds 10MB limit''), 0,
      [ConsoleError ''Error in analyzeContractAction:'']) \<and>
   fst (analyzeContractAction (always_answers ''{}'') [(''file'', oversized_text)] (0::nat)) \<noteq>
     Inr (Failure ''Only image and PDF files are supported'')"
proof -
  have fd: "map_of [(''file'', oversized_text)] ''file'' = Some oversized_text" by simp
  have s: "10 * 1024 * 1024 < file_size oversized_text" by (simp add: oversized_text_def)
  have i: "\<not> startsWith (file_type oversized_text) ''image/''"
    by (simp add: oversized_text_def startsWith_def)
  have p: "file_type oversized_text \<noteq> ''application/pdf''" by (simp add: oversized_text_def)
  have n: "Failure ''File size exceeds 10MB limit'' \<noteq> Failure ''Only image and PDF files are supported''"
    by (simp add: Failure_def)
  note a = analyze_too_large [OF fd s, of "always_answers ''{}''" 0]
  have b: "fst (analyzeContractAction (always_answers ''{}'') [(''file'', oversized_text)] 0) \<noteq>
             Inr (Failure ''Only image and PDF files are supported'')"
    unfolding a fst_conv using n by (simp only: sum.inject not_False_eq_True)
  from i p a b show ?thesis by (intro conjI)
qed

text \<open>
  C2, amended: for every uploaded file of at most 10 * 1024 * 1024 bytes whose type neither
  starts with \<^verbatim>\<open>image/\<close> nor is \<^verbatim>\<open>application/pdf\<close>, the action returns the failure
  ``Only image and PDF files are supported'' and the collaborator is not invoked: its state
  is unchanged and the only event is the line of the outer \<^verbatim>\<open>catch\<close>.
\<close>

theorem unsupported_type_rejected:
  assumes "map_of formData ''file'' = Some f" and "file_size f \<le> 10 * 1024 * 1024"
    and "\<not> startsWith (file_type f) ''image/''" and "file_type f \<noteq> ''application/pdf''"
  shows "analyzeContractAction generateContent formData w =
           (Inr (Failure ''Only image and PDF files are supported''), w,
            [ConsoleError ''Error in analyzeContractAction:''])"
  using assms by (rule analyze_wrong_type)

text \<open>C2, witness: a small plain-text file.\<close>

theorem unsupported_type_rejected_witness:
  "file_size small_text \<le> 10 * 1024 * 1024 \<and>
   \<not> startsWith (file_type small_text) ''image/'' \<and>
   file_type small_text \<noteq> ''application/pdf'' \<and>
   analyzeContractAction (always_answers ''{}'') [(''file'', small_text)] (0::nat) =
     (Inr (Failure ''Only image and PDF files are supported''), 0,
      [ConsoleError ''Error in analyzeContractAction:''])"
proof -
  have fd: "map_of [(''file'', small_text)] ''file'' = Some small_text" by simp
  have s: "file_size small_text \<le> 10 * 1024 * 1024" by (simp add: small_text_def)
  have i: "\<not> startsWith (file_type small_text) ''image/''"
    by (simp add: small_text_def startsWith_def)
  have p: "file_type small_text \<noteq> ''application/pdf''" by (simp add: small_text_def)
  from s i p unsupported_type_rejected [OF fd s i p, of "always_answers ''{}''" 0]
  show ?thesis by (intro conjI)
qed

subsection \<open>C3: the size limit\<close>

text \<open>
  C3: for every uploaded file of more than 10 * 1024 * 1024 bytes the action returns the
  failure ``File size exceeds 10MB limit'' and the collaborator is not invoked; a file of
  exactly 10 * 1024 * 1024 bytes is not rejected by the size rule: the type rule decides,
  and with a supported type the collaborator is invoked.
\<close>

theorem size_limit:
  assumes "map_of formData ''file'' = Some f"
  shows "(10 * 1024 * 1024 < file_size f \<longrightarrow>
            analyzeContractAction generateContent formData w =
              (Inr (Failure ''File size exceeds 10MB limit''), w,
               [ConsoleError ''Error in analyzeContractAction:''])) \<and>
         (file_size f = 10 * 1024 * 1024 \<longrightarrow>
            (if startsWith (file_type f) ''image/'' \<or> file_type f = ''application/pdf''
             then \<exists>evs. snd (snd (analyzeContractAction generateContent formData w)) =
                    GenerateContent (build_request f) # evs
             else analyzeContractAction generateContent formData w =
                    (Inr (Failure ''Only image and PDF files are supported''), w,
                     [ConsoleError ''Error in analyzeContractAction:''])))"
proof (intro conjI impI)
  assume "10 * 1024 * 1024 < file_size f"
  with assms show "analyzeContractAction generateContent formData w =
      (Inr (Failure ''File size exceeds 10MB limit''), w,
       [ConsoleError ''Error in analyzeContractAction:''])"
    by (rule analyze_too_large)
next
  assume s: "file_size f = 10 * 1024 * 1024"
  show "if startsWith (file_type f) ''image/'' \<or> file_type f = ''application/pdf''
        then \<exists>evs. snd (snd (analyzeContractAction generateContent formData w)) =
               GenerateContent (build_request f) # evs
        else analyzeContractAction generateContent formData w =
               (Inr (Failure ''Only image and PDF files are supported''), w,
                [ConsoleError ''Error in analyzeContractAction:''])"
  proof (cases "startsWith (file_type f) ''image/'' \<or> file_type f = ''application/pdf''")
    case True
    with s have "accepted f" by (simp add: accepted_def)
    from analyze_invokes [OF assms this] True show ?thesis by simp
  next
    case False
    with s analyze_wrong_type [OF assms, of generateContent w] show ?thesis by simp
  qed
qed

text \<open>C3, witness: a file one byte above the limit and an image of exactly the limit.\<close>

theorem size_limit_witness:
  "10 * 1024 * 1024 < file_size oversized_text \<and>
   analyzeContractAction (always_answers ''{}'') [(''file'', oversized_text)] 0 =
     (Inr (Failure ''File size exceeds 10MB limit''), 0,
      [ConsoleError ''Error in analyzeContractAction:'']) \<and>
   file_size exact_limit_image = 10 * 1024 * 1024 \<and>
   startsWith (file_type exact_limit_image) ''image/'' \<and>
   (\<exists>evs. snd (snd (analyzeContractAction (always_answers ''{}'') [(''file'', exact_limit_image)] 0)) =
      GenerateContent (build_request exact_limit_image) # evs)"
proof -
  have f1: "map_of [(''file'', oversized_text)] ''file'' = Some oversized_text" by simp
  have f2: "map_of [(''file'', exact_limit_image)] ''file'' = Some exact_limit_image" by simp
  have s1: "10 * 1024 * 1024 < file_size oversized_text" by (simp add: oversized_text_def)
  have s2: "file_size exact_limit_image = 10 * 1024 * 1024" by (simp add: exact_limit_image_def)
  have t2: "startsWith (file_type exact_limit_image) ''image/''"
    by (simp add: exact_limit_image_def startsWith_def)
  note a = size_limit [OF f1, of "always_answers ''{}''" 0, THEN conjunct1, rule_format, OF s1]
  note b = size_limit [OF f2, of "always_answers ''{}''" 0, THEN conjunct2, rule_format, OF s2]
  have c: "\<exists>evs. snd (snd (analyzeContractAction (always_answers ''{}'') [(''file'', exact_limit_image)] 0)) =
      GenerateContent (build_request exact_limit_image) # evs"
    using b t2 by (simp only: simp_thms if_True)
  from s1 a s2 t2 c show ?thesis by (intro conjI)
qed

subsection \<open>C4: a fenced JSON block\<close>

lemma search_nbsp_fenced_response:
  "search fence_at nbsp_fenced_response = Some ([CHR 0xA0], sample_analysis, [CHR 0xA0], ())"
  by (simp add: nbsp_fenced_response_def sample_analysis_def fence_at_def lit_def matched_def
        startsWith_def is_space_def)

lemma parse_nbsp: "JSON_parse ([CHR 0xA0] @ sample_analysis @ [CHR 0xA0]) = None"
  by (simp add: sample_analysis_def JSON_parse_def trim_json_ws_def
        skip_ws_def is_json_ws_def startsWith_def lex_number_def is_digit_def parse_value.simps)

text \<open>
  C4, as stated: for every accepted file and every response with a fenced JSON block whose
  inner content (capture group 1) parses as an analysis result, the action returns a success
  with that object, the match with its markers removed parsing to the same object as the
  inner content. This fails when the white space that the pattern allows between the
  markers and the inner content is not white space of JSON: \<^verbatim>\<open>\s\<close> matches the
  no-break space, \<^verbatim>\<open>JSON.parse\<close> rejects it, and the action returns the parse failure.
\<close>

theorem fenced_json_nbsp_fails:
  "match_fence nbsp_fenced_response =
     Some \<lparr>whole = nbsp_fenced_response, group1 = Some sample_analysis\<rparr> \<and>
   JSON_parse sample_analysis = Some sample_analysis_json \<and>
   is_AnalysisResults sample_analysis_json \<and>
   strip_fences nbsp_fenced_response = [CHR 0xA0] @ sample_analysis @ [CHR 0xA0] \<and>
   JSON_parse (strip_fences nbsp_fenced_response) = None \<and>
   analyzeContractAction (always_answers nbsp_fenced_response) [(''file'', sample_pdf)] 0 =
     (Inr (Failure ''Unable to analyze the contract. Please try a clearer image or a different file.''),
      1,
      [GenerateContent (build_request sample_pdf),
       JSONParse ([CHR 0xA0] @ sample_analysis @ [CHR 0xA0]),
       ConsoleError ''Error parsing JSON response:'',
       ConsoleError ''Error in analyzeContractAction:''])"
proof -
  have fd: "map_of [(''file'', sample_pdf)] ''file'' = Some sample_pdf" by simp
  have g: "always_answers nbsp_fenced_response 0 (build_request sample_pdf) =
      (Inr nbsp_fenced_response, 1)"
    by (simp add: always_answers_def)
  have w: "''```json'' @ [CHR 0xA0] @ sample_analysis @ [CHR 0xA0] @ ''```'' = nbsp_fenced_response"
    by (simp add: nbsp_fenced_response_def)
  have m: "match_fence nbsp_fenced_response =
      Some \<lparr>whole = nbsp_fenced_response, group1 = Some sample_analysis\<rparr>"
    using w by (simp add: match_fence_def search_nbsp_fenced_response)
  have s: "strip_fences nbsp_fenced_response = [CHR 0xA0] @ sample_analysis @ [CHR 0xA0]"
    using strip_fences_match [OF search_nbsp_fenced_response] unfolding w .
  have x: "extract_json_string nbsp_fenced_response = [CHR 0xA0] @ sample_analysis @ [CHR 0xA0]"
    using search_nbsp_fenced_response by (rule extract_fenced)
  have p: "JSON_parse (strip_fences nbsp_fenced_response) = None"
    by (simp only: s parse_nbsp)
  have a: "analyzeContractAction (always_answers nbsp_fenced_response) [(''file'', sample_pdf)] 0 =
     (Inr (Failure ''Unable to analyze the contract. Please try a clearer image or a different file.''),
      1,
      [GenerateContent (build_request sample_pdf),
       JSONParse ([CHR 0xA0] @ sample_analysis @ [CHR 0xA0]),
       ConsoleError ''Error parsing JSON response:'',
       ConsoleError ''Error in analyzeContractAction:''])"
    by (simp only: analyze_text [where gen = "always_answers nbsp_fenced_response" and w = 0,
          OF fd accepted_sample_pdf g] x parse_nbsp option.case)
  from m parse_sample_analysis sample_analysis_shape s p a show ?thesis by (intro conjI)
qed

text \<open>
  C4, amended: for every accepted file and every response that the fence pattern matches, if
  the white space between the markers and the inner content consists of space, tab, line
  feed and carriage return only and the inner content parses, then the action returns a
  success with the parsed value, whatever braces the response has elsewhere; the string
  handed to \<^verbatim>\<open>JSON.parse\<close> is the match without its two markers.
\<close>

theorem fenced_json_success:
  assumes "map_of formData ''file'' = Some f" and "accepted f"
    and "generateContent w (build_request f) = (Inr response, w')"
    and "search fence_at response = Some (ws1, inner, ws2, ())"
    and "list_all is_json_ws ws1" and "list_all is_json_ws ws2"
    and "JSON_parse inner = Some obj"
  shows "match_fence response =
           Some \<lparr>whole = ''```json'' @ ws1 @ inner @ ws2 @ ''```'', group1 = Some inner\<rparr> \<and>
         extract_json_string response = ws1 @ inner @ ws2 \<and>
         analyzeContractAction generateContent formData w =
           (Inr (Success obj), w',
            [GenerateContent (build_request f), JSONParse (ws1 @ inner @ ws2)])"
proof -
  have m: "match_fence response =
      Some \<lparr>whole = ''```json'' @ ws1 @ inner @ ws2 @ ''```'', group1 = Some inner\<rparr>"
    using assms(4) by (simp add: match_fence_def)
  have x: "extract_json_string response = ws1 @ inner @ ws2"
    using assms(4) by (rule extract_fenced)
  have p: "JSON_parse (ws1 @ inner @ ws2) = Some obj"
    using JSON_parse_surrounded [OF assms(5,6), of inner] assms(7) by simp
  have a: "analyzeContractAction generateContent formData w =
      (Inr (Success obj), w', [GenerateContent (build_request f), JSONParse (ws1 @ inner @ ws2)])"
    by (simp only: analyze_text [where gen = generateContent and w = w, OF assms(1,2,3)] x p
          option.case)
  from m x a show ?thesis by (intro conjI)
qed

lemma search_fenced_response:
  "search fence_at fenced_response = Some ([CHR 0x0A], sample_analysis, [CHR 0x0A], ())"
  by (simp add: fenced_response_def sample_analysis_def fence_at_def lit_def matched_def
        startsWith_def is_space_def)

text \<open>
  C4, witness: an analysis in a fence, between two lines of prose, the first of which has
  braces of its own.
\<close>

theorem fenced_json_success_witness:
  "accepted sample_pdf \<and>
   search fence_at fenced_response = Some ([CHR 0x0A], sample_analysis, [CHR 0x0A], ()) \<and>
   list_all is_json_ws [CHR 0x0A] \<and>
   JSON_parse sample_analysis = Some sample_analysis_json \<and>
   is_AnalysisResults sample_analysis_json \<and>
   analyzeContractAction (always_answers fenced_response) [(''file'', sample_pdf)] 0 =
     (Inr (Success sample_analysis_json), 1,
      [GenerateContent (build_request sample_pdf),
       JSONParse ([CHR 0x0A] @ sample_analysis @ [CHR 0x0A])])"
proof -
  have fd: "map_of [(''file'', sample_pdf)] ''file'' = Some sample_pdf" by simp
  have g: "always_answers fenced_response 0 (build_request sample_pdf) = (Inr fenced_response, 1)"
    by (simp add: always_answers_def)
  have ws: "list_all is_json_ws [CHR 0x0A]" by (simp add: is_json_ws_def)
  note t = fenced_json_success [where generateContent = "always_answers fenced_response" and w = 0,
      OF fd accepted_sample_pdf g search_fenced_response ws ws parse_sample_analysis]
  from accepted_sample_pdf search_fenced_response ws parse_sample_analysis sample_analysis_shape
    t [THEN conjunct2, THEN conjunct2]
  show ?thesis by (intro conjI)
qed

subsection \<open>C5: an object wrapped in prose\<close>

lemma match_fence_backticks_response: "match_fence backticks_response = None"
  by (simp add: backticks_response_def match_fence_def fence_at_def lit_def startsWith_def)

lemma brace_span_backticks_response:
  \<open>brace_span backticks_response = Some ''{"summary":"```"}''\<close>
  by (simp add: backticks_response_def brace_span_def upto_last_def)

lemma strip_backticks_candidate:
  \<open>strip_fences ''{"summary":"```"}'' = ''{"summary":""}''\<close>
  by (simp add: startsWith_def)

lemma parse_backticks_candidate:
  \<open>JSON_parse ''{"summary":"```"}'' = Some (JObject [(''summary'', JString ''```'')])\<close>
  by (simp add: JSON_parse_def trim_json_ws_def skip_ws_def is_json_ws_def startsWith_def
        parse_value.simps parse_members.simps parse_elements.simps)

lemma parse_stripped_candidate:
  \<open>JSON_parse ''{"summary":""}'' = Some (JObject [(''summary'', JString [])])\<close>
  by (simp add: JSON_parse_def trim_json_ws_def skip_ws_def is_json_ws_def startsWith_def
        parse_value.simps parse_members.simps parse_elements.simps)

text \<open>
  C5, as stated: for every accepted file and every response without a JSON fence that has a
  brace-delimited object in prose, the candidate is the span from the first opening brace
  to the last closing brace and, if that candidate parses, the action returns a success with
  the object parsed from it. This fails when the candidate contains three backticks: they
  are removed before parsing, so the object returned is not the one the candidate denotes.
\<close>

theorem brace_span_backticks_differ:
  \<open>match_fence backticks_response = None \<and>
   match_braces backticks_response = Some \<lparr>whole = ''{"summary":"```"}'', group1 = None\<rparr> \<and>
   JSON_parse ''{"summary":"```"}'' = Some (JObject [(''summary'', JString ''```'')]) \<and>
   analyzeContractAction (always_answers backticks_response) [(''file'', sample_pdf)] 0 =
     (Inr (Success (JObject [(''summary'', JString [])])), 1,
      [GenerateContent (build_request sample_pdf), JSONParse ''{"summary":""}'']) \<and>
   JObject [(''summary'', JString [])] \<noteq> JObject [(''summary'', JString ''```'')]\<close>
proof -
  have fd: "map_of [(''file'', sample_pdf)] ''file'' = Some sample_pdf" by simp
  have g: "always_answers backticks_response 0 (build_request sample_pdf) =
      (Inr backticks_response, 1)"
    by (simp add: always_answers_def)
  have m: \<open>match_braces backticks_response = Some \<lparr>whole = ''{"summary":"```"}'', group1 = None\<rparr>\<close>
    by (simp only: match_braces_span brace_span_backticks_response option.map)
  have x: \<open>extract_json_string backticks_response = ''{"summary":""}''\<close>
    unfolding extract_json_string_def
    by (simp only: match_fence_backticks_response m option.case Let_def match_array.simps
          strip_backticks_candidate)
  have a: \<open>analyzeContractAction (always_answers backticks_response) [(''file'', sample_pdf)] 0 =
     (Inr (Success (JObject [(''summary'', JString [])])), 1,
      [GenerateContent (build_request sample_pdf), JSONParse ''{"summary":""}''])\<close>
    by (simp only: analyze_text [where gen = "always_answers backticks_response" and w = 0,
          OF fd accepted_sample_pdf g] x parse_stripped_candidate option.case)
  have d: "JObject [(''summary'', JString [])] \<noteq> JObject [(''summary'', JString ''```'')]"
    by simp
  from match_fence_backticks_response m parse_backticks_candidate a d
  show ?thesis by (intro conjI)
qed

text \<open>
  C5, amended: for every accepted file and every response that the fence pattern does not
  match and that has a closing brace behind its first opening brace, the candidate is the
  span from the first opening brace to the last closing brace and, if the candidate with
  every \<^verbatim>\<open>```json\<close> and \<^verbatim>\<open>```\<close> removed parses, the action returns a success with the
  value parsed from it; a candidate without three backticks in a row is parsed as it is.
\<close>

theorem brace_span_success:
  assumes "map_of formData ''file'' = Some f" and "accepted f"
    and "generateContent w (build_request f) = (Inr response, w')"
    and "match_fence response = None"
    and "brace_span response = Some candidate"
    and "JSON_parse (strip_fences candidate) = Some obj"
  shows "match_braces response = Some \<lparr>whole = candidate, group1 = None\<rparr> \<and>
         (\<not> includes_str candidate ''```'' \<longrightarrow> strip_fences candidate = candidate) \<and>
         analyzeContractAction generateContent formData w =
           (Inr (Success obj), w',
            [GenerateContent (build_request f), JSONParse (strip_fences candidate)])"
proof -
  have m: "match_braces response = Some \<lparr>whole = candidate, group1 = None\<rparr>"
    using assms(5) by (simp add: match_braces_span)
  have x: "extract_json_string response = strip_fences candidate"
    using assms(4) m by (simp add: extract_json_string_def)
  have a: "analyzeContractAction generateContent formData w =
      (Inr (Success obj), w',
       [GenerateContent (build_request f), JSONParse (strip_fences candidate)])"
    by (simp only: analyze_text [where gen = generateContent and w = w, OF assms(1,2,3)] x
          assms(6) option.case)
  have i: "\<not> includes_str candidate ''```'' \<longrightarrow> strip_fences candidate = candidate"
    using strip_fences_id by blast
  from m i a show ?thesis by (intro conjI)
qed

lemma match_fence_prose_response: "match_fence prose_response = None"
  by (simp add: prose_response_def sample_analysis_def match_fence_def fence_at_def lit_def
        startsWith_def)

lemma brace_span_prose_response: "brace_span prose_response = Some sample_analysis"
  by (simp add: prose_response_def sample_analysis_def brace_span_def upto_last_def)

lemma sample_analysis_no_backticks: "\<not> includes_str sample_analysis ''```''"
  by (simp add: sample_analysis_def startsWith_def)

text \<open>C5, witness: an analysis between two pieces of prose.\<close>

theorem brace_span_success_witness:
  "accepted sample_pdf \<and>
   match_fence prose_response = None \<and>
   brace_span prose_response = Some sample_analysis \<and>
   \<not> includes_str sample_analysis ''```'' \<and>
   strip_fences sample_analysis = sample_analysis \<and>
   JSON_parse sample_analysis = Some sample_analysis_json \<and>
   match_braces prose_response = Some \<lparr>whole = sample_analysis, group1 = None\<rparr> \<and>
   analyzeContractAction (always_answers prose_response) [(''file'', sample_pdf)] 0 =
     (Inr (Success sample_analysis_json), 1,
      [GenerateContent (build_request sample_pdf), JSONParse sample_analysis])"
proof -
  have fd: "map_of [(''file'', sample_pdf)] ''file'' = Some sample_pdf" by simp
  have g: "always_answers prose_response 0 (build_request sample_pdf) = (Inr prose_response, 1)"
    by (simp add: always_answers_def)
  have s: "strip_fences sample_analysis = sample_analysis"
    using sample_analysis_no_backticks by (rule strip_fences_id)
  have p: "JSON_parse (strip_fences sample_analysis) = Some sample_analysis_json"
    by (simp only: s parse_sample_analysis)
  note t = brace_span_success [where generateContent = "always_answers prose_response" and w = 0,
      OF fd accepted_sample_pdf g match_fence_prose_response brace_span_prose_response p,
      unfolded s]
  from accepted_sample_pdf match_fence_prose_response brace_span_prose_response
    sample_analysis_no_backticks s parse_sample_analysis
    t [THEN conjunct1] t [THEN conjunct2, THEN conjunct2]
  show ?thesis by (intro conjI)
qed

subsection \<open>C6: a candidate that does not parse\<close>

text \<open>
  C6: for every accepted file and every response whose extracted candidate does not parse,
  the action returns, as a value, the failure ``Unable to analyze the contract. Please try
  a clearer image or a different file.''; the collaborator and \<^verbatim>\<open>JSON.parse\<close> are each
  called once.
\<close>

theorem malformed_json_is_failure:
  assumes "map_of formData ''file'' = Some f" and "accepted f"
    and "generateContent w (build_request f) = (Inr text, w')"
    and "JSON_parse (extract_json_string text) = None"
  shows "analyzeContractAction generateContent formData w =
           (Inr (Failure ''Unable to analyze the contract. Please try a clearer image or a different file.''),
            w',
            [GenerateContent (build_request f), JSONParse (extract_json_string text),
             ConsoleError ''Error parsing JSON response:'',
             ConsoleError ''Error in analyzeContractAction:''])"
  using analyze_text [where gen = generateContent and w = w, OF assms(1,2,3)] assms(4) by (simp only: option.case)

lemma extract_trailing_comma:
  \<open>extract_json_string ''Sure! {"summary": "ok",} Done.'' = ''{"summary": "ok",}''\<close>
  by (simp add: extract_json_string_def match_fence_def match_braces_def fence_at_def braces_at_def
        lit_def matched_def startsWith_def)

lemma parse_trailing_comma: \<open>JSON_parse ''{"summary": "ok",}'' = None\<close>
  by (simp add: JSON_parse_def trim_json_ws_def skip_ws_def is_json_ws_def startsWith_def
        parse_value.simps parse_members.simps parse_elements.simps)

text \<open>C6, witness: an object with a trailing comma, wrapped in prose.\<close>

theorem malformed_json_is_failure_witness:
  \<open>accepted sample_pdf \<and>
   extract_json_string ''Sure! {"summary": "ok",} Done.'' = ''{"summary": "ok",}'' \<and>
   JSON_parse ''{"summary": "ok",}'' = None \<and>
   analyzeContractAction (always_answers ''Sure! {"summary": "ok",} Done.'')
       [(''file'', sample_pdf)] 0 =
     (Inr (Failure ''Unable to analyze the contract. Please try a clearer image or a different file.''),
      1,
      [GenerateContent (build_request sample_pdf), JSONParse ''{"summary": "ok",}'',
       ConsoleError ''Error parsing JSON response:'',
       ConsoleError ''Error in analyzeContractAction:''])\<close>
proof -
  let ?t = \<open>''Sure! {"summary": "ok",} Done.''\<close>
  have fd: "map_of [(''file'', sample_pdf)] ''file'' = Some sample_pdf" by simp
  have g: "always_answers ?t 0 (build_request sample_pdf) = (Inr ?t, 1)"
    by (simp add: always_answers_def)
  have p: "JSON_parse (extract_json_string ?t) = None"
    by (simp only: extract_trailing_comma parse_trailing_comma)
  note a = malformed_json_is_failure [where generateContent = "always_answers ?t" and w = 0,
      OF fd accepted_sample_pdf g p, unfolded extract_trailing_comma]
  from accepted_sample_pdf extract_trailing_comma parse_trailing_comma a
  show ?thesis by (intro conjI)
qed

subsection \<open>C7: the action returns an outcome\<close>




subsection \<open>C8: other messages pass through\<close>



subsection \<open>C9: two runs with a deterministic collaborator\<close>

text \<open>
  With a deterministic collaborator the outcome and the events do not depend on the state
  the collaborator is in.
\<close>

lemma try_block_state_independent:
  assumes "deterministic gen"
  shows "fst (try_block gen formData w) = fst (try_block gen formData w') \<and>
         snd (snd (try_block gen formData w)) = snd (snd (try_block gen formData w'))"
proof (cases "map_of formData ''file''")
  case None
  then show ?thesis by (simp add: try_block_def)
next
  case (Some f)
  have "fst (gen w (build_request f)) = fst (gen w' (build_request f))"
    using assms by (simp add: deterministic_def)
  then show ?thesis
    using Some
    by (cases "gen w (build_request f)"; cases "gen w' (build_request f)")
       (auto simp: try_block_def Let_def split: sum.splits prod.splits)
qed

lemma analyze_state_independent:
  assumes "deterministic gen"
  shows "fst (analyzeContractAction gen formData w) = fst (analyzeContractAction gen formData w') \<and>
         snd (snd (analyzeContractAction gen formData w)) =
           snd (snd (analyzeContractAction gen formData w'))"
  using try_block_state_independent [OF assms, of formData w w']
  by (cases "try_block gen formData w"; cases "try_block gen formData w'")
     (auto simp: analyzeContractAction_def simp del: catch_block.simps split: sum.splits)

text \<open>
  C9: with a deterministic collaborator, running the action twice in a row on the same form
  data, the second run from the state the first one left, gives the same outcome and the
  same events.
\<close>

theorem analyze_twice_same_outcome:
  assumes "deterministic generateContent"
    and "analyzeContractAction generateContent formData w = (r1, w1, evs1)"
    and "analyzeContractAction generateContent formData w1 = (r2, w2, evs2)"
  shows "r1 = r2 \<and> evs1 = evs2"
  using analyze_state_independent [OF assms(1), of formData w w1] assms(2,3) by simp

text \<open>C9, witness: a collaborator that counts its calls and always gives the same answer.\<close>

theorem analyze_twice_same_outcome_witness:
  "deterministic (always_answers sample_analysis) \<and>
   analyzeContractAction (always_answers sample_analysis) [(''file'', sample_pdf)] 0 =
     (Inr (Success sample_analysis_json), 1,
      [GenerateContent (build_request sample_pdf), JSONParse sample_analysis]) \<and>
   analyzeContractAction (always_answers sample_analysis) [(''file'', sample_pdf)] 1 =
     (Inr (Success sample_analysis_json), 2,
      [GenerateContent (build_request sample_pdf), JSONParse sample_analysis])"
proof -
  let ?g = "always_answers sample_analysis"
  let ?fd = "[(''file'', sample_pdf)]"
  have d: "deterministic ?g" by (simp add: deterministic_def always_answers_def)
  have fd: "map_of ?fd ''file'' = Some sample_pdf" by simp
  have g0: "?g 0 (build_request sample_pdf) = (Inr sample_analysis, 1)"
    by (simp add: always_answers_def)
  have x: "extract_json_string sample_analysis = sample_analysis"
    by (simp add: sample_analysis_def extract_json_string_def match_fence_def match_braces_def
          fence_at_def braces_at_def lit_def matched_def startsWith_def)
  have p: "JSON_parse sample_analysis = Some sample_analysis_json"
    by (simp add: sample_analysis_def sample_analysis_json_def JSON_parse_def trim_json_ws_def
          skip_ws_def is_json_ws_def startsWith_def lex_number_def lex_fraction_def
          lex_exponent_def is_digit_def parse_value.simps parse_members.simps parse_elements.simps)
  have a0: "analyzeContractAction ?g ?fd 0 =
     (Inr (Success sample_analysis_json), 1,
      [GenerateContent (build_request sample_pdf), JSONParse sample_analysis])"
    by (simp only: analyze_text [where gen = ?g and w = 0, OF fd accepted_sample_pdf g0] x p option.case)
  obtain r2 w2 evs2 where a1: "analyzeContractAction ?g ?fd 1 = (r2, w2, evs2)"
    by (cases "analyzeContractAction ?g ?fd 1")
  have g1: "?g 1 (build_request sample_pdf) = (Inr sample_analysis, 2)"
    by (simp add: always_answers_def)
  have "fst (snd (analyzeContractAction ?g ?fd 1)) = 2"
    by (simp only: analyze_text [where gen = ?g and w = 1, OF fd accepted_sample_pdf g1] x p
          option.case fst_conv snd_conv)
  with a1 have w2: "w2 = 2" by simp
  from analyze_twice_same_outcome [OF d a0 a1] a1 w2
  have "analyzeContractAction ?g ?fd 1 =
     (Inr (Success sample_analysis_json), 2,
      [GenerateContent (build_request sample_pdf), JSONParse sample_analysis])"
    by simp
  with d a0 show ?thesis by (intro conjI)
qed

subsection \<open>C10: a success need not carry an object\<close>

lemma extract_array: "extract_json_string ''[1,2]'' = ''[1,2]''"
  by (simp add: extract_json_string_def match_fence_def match_braces_def fence_at_def
        braces_at_def lit_def matched_def startsWith_def)

lemma extract_number: "extract_json_string ''42'' = ''42''"
  by (simp add: extract_json_string_def match_fence_def match_braces_def fence_at_def
        braces_at_def lit_def matched_def startsWith_def)

lemma parse_array: "JSON_parse ''[1,2]'' = Some (JArray [JNumber ''1'', JNumber ''2''])"
  by (simp add: JSON_parse_def trim_json_ws_def skip_ws_def is_json_ws_def startsWith_def
        lex_number_def lex_fraction_def lex_exponent_def is_digit_def
        parse_value.simps parse_members.simps parse_elements.simps)

lemma parse_number: "JSON_parse ''42'' = Some (JNumber ''42'')"
  by (simp add: JSON_parse_def trim_json_ws_def skip_ws_def is_json_ws_def startsWith_def
        lex_number_def lex_fraction_def lex_exponent_def is_digit_def
        parse_value.simps parse_members.simps parse_elements.simps)

text \<open>
  C10: there are responses for which the action returns a success whose data is not an
  object: the texts \<^verbatim>\<open>[1,2]\<close> and \<^verbatim>\<open>42\<close> have no fence and no braces, so the whole text
  is parsed, and the array and the number are returned as data.
\<close>

theorem success_with_non_object:
  "match_fence ''[1,2]'' = None \<and> match_braces ''[1,2]'' = None \<and>
   analyzeContractAction (always_answers ''[1,2]'') [(''file'', sample_pdf)] 0 =
     (Inr (Success (JArray [JNumber ''1'', JNumber ''2''])), 1,
      [GenerateContent (build_request sample_pdf), JSONParse ''[1,2]'']) \<and>
   (\<forall>ms. JArray [JNumber ''1'', JNumber ''2''] \<noteq> JObject ms) \<and>
   \<not> is_AnalysisResults (JArray [JNumber ''1'', JNumber ''2'']) \<and>
   match_fence ''42'' = None \<and> match_braces ''42'' = None \<and>
   analyzeContractAction (always_answers ''42'') [(''file'', sample_pdf)] 0 =
     (Inr (Success (JNumber ''42'')), 1,
      [GenerateContent (build_request sample_pdf), JSONParse ''42'']) \<and>
   (\<forall>ms. JNumber ''42'' \<noteq> JObject ms) \<and>
   \<not> is_AnalysisResults (JNumber ''42'')"
proof -
  have fd: "map_of [(''file'', sample_pdf)] ''file'' = Some sample_pdf" by simp
  have g1: "always_answers ''[1,2]'' 0 (build_request sample_pdf) = (Inr ''[1,2]'', 1)"
    by (simp add: always_answers_def)
  have g2: "always_answers ''42'' 0 (build_request sample_pdf) = (Inr ''42'', 1)"
    by (simp add: always_answers_def)
  have m1: "match_fence ''[1,2]'' = None"
    by (simp add: match_fence_def fence_at_def lit_def startsWith_def)
  have b1: "match_braces ''[1,2]'' = None"
    by (simp add: match_braces_def braces_at_def lit_def startsWith_def)
  have m2: "match_fence ''42'' = None"
    by (simp add: match_fence_def fence_at_def lit_def startsWith_def)
  have b2: "match_braces ''42'' = None"
    by (simp add: match_braces_def braces_at_def lit_def startsWith_def)
  have a1: "analyzeContractAction (always_answers ''[1,2]'') [(''file'', sample_pdf)] 0 =
     (Inr (Success (JArray [JNumber ''1'', JNumber ''2''])), 1,
      [GenerateContent (build_request sample_pdf), JSONParse ''[1,2]''])"
    by (simp only: analyze_text [where gen = "always_answers ''[1,2]''" and w = 0,
          OF fd accepted_sample_pdf g1] extract_array parse_array option.case)
  have a2: "analyzeContractAction (always_answers ''42'') [(''file'', sample_pdf)] 0 =
     (Inr (Success (JNumber ''42'')), 1,
      [GenerateContent (build_request sample_pdf), JSONParse ''42''])"
    by (simp only: analyze_text [where gen = "always_answers ''42''" and w = 0,
          OF fd accepted_sample_pdf g2] extract_number parse_number option.case)
  have o1: "\<forall>ms. JArray [JNumber ''1'', JNumber ''2''] \<noteq> JObject ms" by simp
  have o2: "\<forall>ms. JNumber ''42'' \<noteq> JObject ms" by simp
  have r1: "\<not> is_AnalysisResults (JArray [JNumber ''1'', JNumber ''2''])" by simp
  have r2: "\<not> is_AnalysisResults (JNumber ''42'')" by simp
  from m1 b1 a1 o1 r1 m2 b2 a2 o2 r2 show ?thesis by (intro conjI)
qed

end
